theory Spec2Isabelle
  imports Complex_Main "HOL-Library.Product_Lexorder" "HOL-Library.Sublist"
    "HOL-Library.Multiset"
begin

section \<open>Python values, dictionaries and exceptions\<close>

text \<open>
  The agent framework of \<^verbatim>\<open>autonomous_agent_framework.py\<close> stores values of type
  \<^verbatim>\<open>Any\<close> in its dictionaries. The values that the framework itself produces are
  \<^verbatim>\<open>None\<close>, booleans, integers, floats, strings and string-keyed dictionaries.
  A float is represented by the rational number it denotes (infinities and NaN are
  left out), so that a comparison between an integer and a float is the exact
  comparison that Python performs.
\<close>

datatype pyval = PNone | PBool bool | PInt int | PFloat rat | PStr string
  | PDict "(string \<times> pyval) list"

text \<open>
  A Python dictionary keeps its keys in insertion order; it is an association list
  whose keys are pairwise distinct.
\<close>

type_synonym pydict = "(string \<times> pyval) list"

datatype py_error = TypeError | KeyError | IndexError | ZeroDivisionError | AttributeError

text \<open>\<^verbatim>\<open>d[k] = v\<close>: an existing key keeps its position, a new key goes last.\<close>

fun dict_set :: "('k \<times> 'v) list \<Rightarrow> 'k \<Rightarrow> 'v \<Rightarrow> ('k \<times> 'v) list" where
  "dict_set [] k v = [(k, v)]"
| "dict_set (p # ps) k v = (if fst p = k then (k, v) # ps else p # dict_set ps k v)"

text \<open>\<^verbatim>\<open>del d[k]\<close>: raises \<^verbatim>\<open>KeyError\<close> when the key is absent.\<close>

definition dict_del :: "('k \<times> 'v) list \<Rightarrow> 'k \<Rightarrow> py_error + ('k \<times> 'v) list" where
  "dict_del d k =
     (if map_of d k = None then Inl KeyError else Inr (filter (\<lambda>p. fst p \<noteq> k) d))"

text \<open>
  \<^verbatim>\<open>isinstance(v, (int, float))\<close> holds for booleans too (\<^verbatim>\<open>bool\<close> is a subclass
  of \<^verbatim>\<open>int\<close>); \<open>num_of\<close> gives the number such a value stands for.
\<close>

fun num_of :: "pyval \<Rightarrow> rat option" where
  "num_of (PBool b) = Some (if b then 1 else 0)"
| "num_of (PInt i) = Some (of_int i)"
| "num_of (PFloat r) = Some r"
| "num_of PNone = None"
| "num_of (PStr s) = None"
| "num_of (PDict d) = None"

definition is_numeric :: "pyval \<Rightarrow> bool" where
  "is_numeric v = (num_of v \<noteq> None)"

text \<open>
  \<^verbatim>\<open>a == b\<close>: numbers compare by value across \<^verbatim>\<open>bool\<close>, \<^verbatim>\<open>int\<close> and
  \<^verbatim>\<open>float\<close>, dictionaries compare by their key sets and the values under each key,
  and values of unrelated types are unequal.
\<close>

fun py_eq :: "pyval \<Rightarrow> pyval \<Rightarrow> bool" where
  "py_eq (PDict xs) (PDict ys) =
     (length xs = length ys \<and>
      list_all (\<lambda>(k, v). case map_of ys k of None \<Rightarrow> False | Some w \<Rightarrow> py_eq v w) xs)"
| "py_eq (PStr s) (PStr t) = (s = t)"
| "py_eq PNone PNone = True"
| "py_eq a b = (case (num_of a, num_of b) of (Some x, Some y) \<Rightarrow> x = y | _ \<Rightarrow> False)"

text \<open>
  \<^verbatim>\<open>a >= b\<close> for a numeric \<open>b\<close>: a number on the left is compared by value, anything
  else on the left raises \<^verbatim>\<open>TypeError\<close>.
\<close>

definition py_ge_num :: "pyval \<Rightarrow> rat \<Rightarrow> py_error + bool" where
  "py_ge_num a t = (case num_of a of None \<Rightarrow> Inl TypeError | Some x \<Rightarrow> Inr (t \<le> x))"

section \<open>The data model\<close>

datatype AgentState =
  INITIALIZING | IDLE | PLANNING | EXECUTING | LEARNING | COLLABORATING | PAUSED | ERROR

fun state_value :: "AgentState \<Rightarrow> string" where
  "state_value INITIALIZING = ''initializing''"
| "state_value IDLE = ''idle''"
| "state_value PLANNING = ''planning''"
| "state_value EXECUTING = ''executing''"
| "state_value LEARNING = ''learning''"
| "state_value COLLABORATING = ''collaborating''"
| "state_value PAUSED = ''paused''"
| "state_value ERROR = ''error''"

datatype AgentPriority = CRITICAL | HIGH | NORMAL | LOW | BACKGROUND

fun priority_value :: "AgentPriority \<Rightarrow> nat" where
  "priority_value CRITICAL = 1"
| "priority_value HIGH = 2"
| "priority_value NORMAL = 3"
| "priority_value LOW = 4"
| "priority_value BACKGROUND = 5"

text \<open>
  A (naive) \<^verbatim>\<open>datetime\<close> is the number of microseconds since \<^verbatim>\<open>datetime.min\<close>;
  \<open>datetime_max\<close> is \<^verbatim>\<open>datetime.max\<close>, the last microsecond of the year 9999.
\<close>

type_synonym datetime = nat

definition datetime_max :: datetime where
  "datetime_max = 315537897599999999"

record AgentGoal =
  goal_ident :: string
  description :: string
  success_criteria :: pydict
  deadline :: "datetime option"
  goal_priority :: AgentPriority
  progress :: rat
  goal_completed :: bool

record AgentTask =
  task_ident :: string
  goal_id :: string
  action :: string
  parameters :: pydict
  priority :: AgentPriority
  scheduled_time :: "datetime option"
  max_retries :: int
  retry_count :: int
  completed :: bool
  result :: "pyval option"
  error :: "string option"

text \<open>
  The \<^verbatim>\<open>metrics\<close> dictionary of an agent is created with six fixed keys, which no
  method adds to or removes from; it is a record of those six entries.
\<close>

record agent_metrics =
  tasks_completed :: int
  goals_achieved :: int
  uptime_hours :: rat
  decisions_made :: int
  errors_recovered :: int
  value_generated :: int

text \<open>
  The configuration that \<^verbatim>\<open>initialize\<close> receives is a dictionary, of which it
  reads three numbers; the other keys are not read.
\<close>

record agent_config =
  cfg_max_autonomous_days :: "rat option"
  cfg_decision_threshold :: "rat option"
  cfg_learning_rate :: "rat option"

text \<open>
  Tasks and agents are mutable objects that the framework shares by reference: a
  task is mutated after it was popped from the queue, and an agent is held both by
  the orchestrator's registry and by its type pool. A reference is an index into a
  store (a list of objects); creating an object appends it to the store.

  The tunables \<^verbatim>\<open>max_autonomous_days\<close>, \<^verbatim>\<open>decision_threshold\<close> and
  \<^verbatim>\<open>learning_rate\<close> are attributes that only \<^verbatim>\<open>initialize\<close> creates: they are
  \<open>None\<close> on an agent that was constructed and not yet initialised.
\<close>

type_synonym task_ref = nat
type_synonym agent_ref = nat

record agent =
  agent_id :: string
  agent_type :: string
  state :: AgentState
  goals :: "AgentGoal list"
  task_queue :: "task_ref list"
  completed_tasks :: "task_ref list"
  learning_memory :: pydict
  collaborators :: "(string \<times> agent_ref) list"
  metrics :: agent_metrics
  is_running :: bool
  start_time :: "datetime option"
  last_human_interaction :: datetime
  config :: "agent_config option"
  max_autonomous_days :: "rat option"
  decision_threshold :: "rat option"
  learning_rate :: "rat option"

type_synonym task_store = "AgentTask list"
type_synonym agent_store = "agent list"

text \<open>\<^verbatim>\<open>AutonomousAgent.__init__\<close>; the clock reading is an argument.\<close>

definition new_agent :: "datetime \<Rightarrow> string \<Rightarrow> string \<Rightarrow> agent" where
  "new_agent now aid atype =
     \<lparr> agent_id = aid, agent_type = atype, state = INITIALIZING, goals = [],
       task_queue = [], completed_tasks = [], learning_memory = [], collaborators = [],
       metrics = \<lparr> tasks_completed = 0, goals_achieved = 0, uptime_hours = 0,
                   decisions_made = 0, errors_recovered = 0, value_generated = 0 \<rparr>,
       is_running = False, start_time = None, last_human_interaction = now,
       config = None, max_autonomous_days = None, decision_threshold = None, learning_rate = None \<rparr>"

text \<open>
  \<^verbatim>\<open>initialize\<close>: \<^verbatim>\<open>config.get(key, default)\<close> for each of the three
  tunables.
\<close>

definition initialize :: "datetime \<Rightarrow> agent_config \<Rightarrow> agent \<Rightarrow> agent" where
  "initialize now cfg a =
     a\<lparr> config := Some cfg,
        max_autonomous_days := Some (case cfg_max_autonomous_days cfg of None \<Rightarrow> 7 | Some d \<Rightarrow> d),
        decision_threshold := Some (case cfg_decision_threshold cfg of None \<Rightarrow> 4 / 5 | Some d \<Rightarrow> d),
        learning_rate := Some (case cfg_learning_rate cfg of None \<Rightarrow> 1 / 10 | Some d \<Rightarrow> d),
        state := IDLE, start_time := Some now \<rparr>"

section \<open>Goal progress\<close>

text \<open>
  \<^verbatim>\<open>AgentGoal.evaluate_progress\<close>. The loop visits the criteria in order and stops
  at the first comparison that raises. A criterion whose target is a number is met
  when \<^verbatim>\<open>metrics[criterion] >= target\<close>; any other target is met when
  \<^verbatim>\<open>metrics[criterion] == target\<close>.
\<close>

definition criterion_met :: "pydict \<Rightarrow> string \<times> pyval \<Rightarrow> py_error + bool" where
  "criterion_met ms c =
     (case map_of ms (fst c) of
        None \<Rightarrow> Inr False
      | Some m \<Rightarrow>
          (case num_of (snd c) of
             Some t \<Rightarrow> py_ge_num m t
           | None \<Rightarrow> Inr (py_eq m (snd c))))"

fun count_met :: "pydict \<Rightarrow> pydict \<Rightarrow> nat \<Rightarrow> py_error + nat" where
  "count_met ms [] met = Inr met"
| "count_met ms (c # cs) met =
     (case criterion_met ms c of
        Inl e \<Rightarrow> Inl e
      | Inr b \<Rightarrow> count_met ms cs (if b then met + 1 else met))"

definition evaluate_progress :: "AgentGoal \<Rightarrow> pydict \<Rightarrow> py_error + rat" where
  "evaluate_progress g ms =
     (if success_criteria g = [] then Inr 0
      else (case count_met ms (success_criteria g) 0 of
              Inl e \<Rightarrow> Inl e
            | Inr met \<Rightarrow> Inr (of_nat met / of_nat (length (success_criteria g)))))"

section \<open>The agent\<close>

subsection \<open>Goal decomposition and the task queue\<close>

text \<open>
  \<^verbatim>\<open>str.lower\<close> on the letters of the keyword, and the substring test
  \<^verbatim>\<open>needle in text\<close>. A string is its sequence of bytes; only the ASCII capitals
  have a lower-case form that is an ASCII letter.
\<close>

definition lower_char :: "char \<Rightarrow> char" where
  "lower_char c =
     (if 65 \<le> (of_char c :: nat) \<and> (of_char c :: nat) \<le> 90
      then char_of ((of_char c :: nat) + 32) else c)"

definition lower :: "string \<Rightarrow> string" where
  "lower s = map lower_char s"

fun contains :: "string \<Rightarrow> string \<Rightarrow> bool" where
  "contains needle [] = (needle = [])"
| "contains needle (c # cs) = (prefix needle (c # cs) \<or> contains needle cs)"

text \<open>The defaults of the \<^verbatim>\<open>AgentTask\<close> dataclass; the identifier is a fresh UUID.\<close>

definition new_task ::
  "string \<Rightarrow> string \<Rightarrow> string \<Rightarrow> pydict \<Rightarrow> AgentPriority \<Rightarrow> AgentTask" where
  "new_task uuid gid act params prio =
     \<lparr> task_ident = uuid, goal_id = gid, action = act, parameters = params,
       priority = prio, scheduled_time = None, max_retries = 3, retry_count = 0,
       completed = False, result = None, error = None \<rparr>"

text \<open>
  \<^verbatim>\<open>decompose_goal\<close> creates three task objects when the description mentions the
  keyword, and none otherwise. The three UUIDs drawn for the new tasks are an
  argument; the function returns the store with the new objects and the list of
  references to them.
\<close>

definition decompose_goal ::
  "string \<times> string \<times> string \<Rightarrow> task_store \<Rightarrow> AgentGoal \<Rightarrow> task_store \<times> task_ref list" where
  "decompose_goal uuids ts g =
     (if contains ''optimize'' (lower (description g)) then
        (case uuids of (u1, u2, u3) \<Rightarrow>
          (ts @ [new_task u1 (goal_ident g) ''analyze_current_state''
                   [(''target'', PStr ''performance_metrics'')] HIGH,
                 new_task u2 (goal_ident g) ''identify_bottlenecks''
                   [(''threshold'', PFloat (7 / 10))] HIGH,
                 new_task u3 (goal_ident g) ''implement_optimizations''
                   [(''auto_approve'', PBool True)] NORMAL],
           [length ts, length ts + 1, length ts + 2]))
      else (ts, []))"

text \<open>
  The sort key of \<^verbatim>\<open>add_task\<close>:
  \<^verbatim>\<open>(t.priority.value, t.scheduled_time or datetime.max)\<close>. Pairs are compared
  lexicographically and \<^verbatim>\<open>list.sort\<close> is stable, as \<open>sort_key\<close> is.
\<close>

definition task_key :: "AgentTask \<Rightarrow> nat \<times> datetime" where
  "task_key t =
     (priority_value (priority t),
      (case scheduled_time t of None \<Rightarrow> datetime_max | Some d \<Rightarrow> d))"

definition add_task :: "task_store \<times> agent \<Rightarrow> task_ref \<Rightarrow> task_store \<times> agent" where
  "add_task w r =
     (case w of (ts, a) \<Rightarrow>
        (ts, a\<lparr>task_queue := sort_key (\<lambda>q. task_key (ts ! q)) (task_queue a @ [r])\<rparr>))"

definition add_tasks :: "task_store \<times> agent \<Rightarrow> task_ref list \<Rightarrow> task_store \<times> agent" where
  "add_tasks w rs = fold (\<lambda>r w'. add_task w' r) rs w"

definition set_goal ::
  "string \<times> string \<times> string \<Rightarrow> task_store \<times> agent \<Rightarrow> AgentGoal \<Rightarrow> task_store \<times> agent" where
  "set_goal uuids w g =
     (case w of (ts, a) \<Rightarrow>
        (case decompose_goal uuids ts g of (ts', rs) \<Rightarrow>
           add_tasks (ts', a\<lparr>goals := goals a @ [g]\<rparr>) rs))"

subsection \<open>State re-evaluation\<close>

definition should_learn :: "agent \<Rightarrow> bool" where
  "should_learn a =
     (length (completed_tasks a) mod 10 = 0 \<and> length (completed_tasks a) > 0)"

definition update_state :: "agent \<Rightarrow> agent" where
  "update_state a =
     (if state a = ERROR then a
      else if task_queue a \<noteq> [] \<and> state a = IDLE then a\<lparr>state := PLANNING\<rparr>
      else if task_queue a = [] \<and> goals a \<noteq> [] then a\<lparr>state := PLANNING\<rparr>
      else if should_learn a then a\<lparr>state := LEARNING\<rparr>
      else a)"

subsection \<open>Task execution and retry\<close>

text \<open>
  The action handler \<^verbatim>\<open>execute_single_task\<close> is overridden by subclasses. A handler
  maps the task it is given to \<open>Inr\<close> of its result, or to \<open>Inl\<close> of the text
  \<^verbatim>\<open>str(e)\<close> of the exception it raises. The handler of the base class never fails.
\<close>

type_synonym handler = "AgentTask \<Rightarrow> string + pyval"


definition execute_tasks :: "handler \<Rightarrow> task_store \<times> agent \<Rightarrow> task_store \<times> agent" where
  "execute_tasks exec w =
     (case w of (ts, a) \<Rightarrow>
        (case task_queue a of
           [] \<Rightarrow> (ts, a\<lparr>state := IDLE\<rparr>)
         | r # q \<Rightarrow>
             (let a1 = a\<lparr>task_queue := q\<rparr>; task = ts ! r in
              case exec task of
                Inr res \<Rightarrow>
                  (ts[r := task\<lparr>result := Some res, completed := True\<rparr>],
                   a1\<lparr>completed_tasks := completed_tasks a1 @ [r],
                      metrics := (metrics a1)\<lparr>tasks_completed :=
                                   tasks_completed (metrics a1) + 1\<rparr>\<rparr>)
              | Inl msg \<Rightarrow>
                  (let task' = task\<lparr>error := Some msg, retry_count := retry_count task + 1\<rparr>;
                       ts' = ts[r := task']
                   in if retry_count task' < max_retries task'
                      then add_task (ts', a1) r
                      else (ts', a1\<lparr>completed_tasks := completed_tasks a1 @ [r]\<rparr>)))))"

text \<open>
  Running the execution step \<open>n\<close> times, and the references of the tasks that these
  \<open>n\<close> steps take from the head of the queue, in order.
\<close>

fun run_steps :: "handler \<Rightarrow> nat \<Rightarrow> task_store \<times> agent \<Rightarrow> task_store \<times> agent" where
  "run_steps exec 0 w = w"
| "run_steps exec (Suc n) w = run_steps exec n (execute_tasks exec w)"

fun executed :: "handler \<Rightarrow> nat \<Rightarrow> task_store \<times> agent \<Rightarrow> task_ref list" where
  "executed exec 0 w = []"
| "executed exec (Suc n) w =
     (case task_queue (snd w) of [] \<Rightarrow> [] | r # q \<Rightarrow> [r]) @ executed exec n (execute_tasks exec w)"

subsection \<open>Learning\<close>





subsection \<open>Knowledge sharing and error recovery\<close>

definition receive_knowledge :: "pydict \<Rightarrow> agent \<Rightarrow> agent" where
  "receive_knowledge knowledge a =
     a\<lparr>learning_memory :=
         fold (\<lambda>(key, v) m. if map_of m key = None then dict_set m key v else m)
           knowledge (learning_memory a)\<rparr>"

text \<open>
  \<^verbatim>\<open>recover_from_error\<close>; \<open>err\<close> is \<^verbatim>\<open>str(error)\<close> and \<open>stamp\<close> is
  \<^verbatim>\<open>datetime.now().isoformat()\<close>.
\<close>

definition recover_from_error :: "string \<Rightarrow> string \<Rightarrow> agent \<Rightarrow> agent" where
  "recover_from_error err stamp a =
     a\<lparr>metrics := (metrics a)\<lparr>errors_recovered := errors_recovered (metrics a) + 1\<rparr>,
       task_queue := [],
       state := IDLE,
       learning_memory :=
         dict_set (dict_set (learning_memory a) ''last_error'' (PStr err))
           ''error_timestamp'' (PStr stamp)\<rparr>"

subsection \<open>Shutdown and status\<close>

text \<open>
  \<^verbatim>\<open>shutdown\<close> clears the running flag and writes the state file; the file is outside
  the model. \<^verbatim>\<open>get_status\<close> formats the time of the last human interaction with
  \<^verbatim>\<open>isoformat\<close>, which is an argument.
\<close>

definition shutdown :: "agent \<Rightarrow> agent" where
  "shutdown a = a\<lparr>is_running := False\<rparr>"

definition get_status :: "(datetime \<Rightarrow> string) \<Rightarrow> agent \<Rightarrow> pydict" where
  "get_status isoformat a =
     [(''agent_id'', PStr (agent_id a)),
      (''agent_type'', PStr (agent_type a)),
      (''state'', PStr (state_value (state a))),
      (''goals_active'', PInt (int (length (filter (\<lambda>g. \<not> goal_completed g) (goals a))))),
      (''tasks_pending'', PInt (int (length (task_queue a)))),
      (''tasks_completed'', PInt (tasks_completed (metrics a))),
      (''uptime_hours'', PFloat (uptime_hours (metrics a))),
      (''value_generated'', PInt (value_generated (metrics a))),
      (''last_human_interaction'', PStr (isoformat (last_human_interaction a)))]"

section \<open>The orchestrator\<close>

record orchestrator =
  agents :: "(string \<times> agent_ref) list"
  agent_pools :: "(string \<times> agent_ref list) list"

definition new_orchestrator :: orchestrator where
  "new_orchestrator = \<lparr> agents = [], agent_pools = [] \<rparr>"

text \<open>
  \<^verbatim>\<open>deploy_agent\<close> initialises the agent and registers it under its identifier and
  in the pool of its type. The run loop that it hands to the event loop starts only
  when the caller next suspends, and is not part of this function.
\<close>

definition deploy_agent ::
  "datetime \<Rightarrow> agent_config \<Rightarrow> agent_store \<times> orchestrator \<Rightarrow> agent_ref
     \<Rightarrow> agent_store \<times> orchestrator" where
  "deploy_agent now cfg w r =
     (case w of (as, orch) \<Rightarrow>
        (let as1 = as[r := initialize now cfg (as ! r)];
             ag = as1 ! r;
             orch1 = orch\<lparr>agents := dict_set (agents orch) (agent_id ag) r\<rparr>;
             orch2 = (if map_of (agent_pools orch1) (agent_type ag) = None
                      then orch1\<lparr>agent_pools := dict_set (agent_pools orch1) (agent_type ag) []\<rparr>
                      else orch1);
             pool = the (map_of (agent_pools orch2) (agent_type ag))
         in (as1, orch2\<lparr>agent_pools :=
                          dict_set (agent_pools orch2) (agent_type ag) (pool @ [r])\<rparr>)))"

text \<open>The format \<^verbatim>\<open>{i:03d}\<close> of a natural number.\<close>

fun dec_digits :: "nat \<Rightarrow> string" where
  "dec_digits n =
     (if n < 10 then [char_of (48 + n)]
      else dec_digits (n div 10) @ [char_of (48 + n mod 10)])"

definition format_03d :: "nat \<Rightarrow> string" where
  "format_03d i = replicate (3 - length (dec_digits i)) (CHR ''0'') @ dec_digits i"

definition fleet_agent_id :: "string \<Rightarrow> nat \<Rightarrow> string" where
  "fleet_agent_id atype i = atype @ ''_'' @ format_03d i"

text \<open>
  \<^verbatim>\<open>deploy_agent_fleet\<close>: for \<open>i\<close> in \<^verbatim>\<open>range(count)\<close>, a new agent object named by
  the type and \<open>i\<close> is created and deployed.
\<close>

definition deploy_one ::
  "datetime \<Rightarrow> string \<Rightarrow> agent_config \<Rightarrow> nat \<Rightarrow> agent_store \<times> orchestrator
     \<Rightarrow> agent_store \<times> orchestrator" where
  "deploy_one now atype cfg i w =
     (case w of (as, orch) \<Rightarrow>
        deploy_agent now cfg (as @ [new_agent now (fleet_agent_id atype i) atype], orch) (length as))"

definition deploy_agent_fleet ::
  "datetime \<Rightarrow> string \<Rightarrow> int \<Rightarrow> agent_config \<Rightarrow> agent_store \<times> orchestrator
     \<Rightarrow> agent_store \<times> orchestrator" where
  "deploy_agent_fleet now atype cnt cfg w = fold (deploy_one now atype cfg) [0 ..< nat cnt] w"

definition get_active_agents ::
  "(datetime \<Rightarrow> string) \<Rightarrow> agent_store \<times> orchestrator \<Rightarrow> agent_ref list" where
  "get_active_agents isoformat w =
     (case w of (as, orch) \<Rightarrow>
        filter
          (\<lambda>r. case map_of (get_status isoformat (as ! r)) ''state'' of
                 None \<Rightarrow> False
               | Some v \<Rightarrow> list_ex (py_eq v) [PStr ''running'', PStr ''active'', PStr ''processing''])
          (map snd (agents orch)))"

text \<open>
  One round of the scale-down loop of \<^verbatim>\<open>scale_fleet\<close>: pop the last agent of the
  pool, shut it down, delete its identifier from the registry. Each of the three
  steps can raise; the state reached so far is returned with the exception.
\<close>

definition remove_last_agent ::
  "string \<Rightarrow> agent_store \<times> orchestrator
     \<Rightarrow> py_error \<times> agent_store \<times> orchestrator + agent_store \<times> orchestrator" where
  "remove_last_agent atype w =
     (case w of (as, orch) \<Rightarrow>
        (case map_of (agent_pools orch) atype of
           None \<Rightarrow> Inl (KeyError, w)
         | Some pool \<Rightarrow>
             if pool = [] then Inl (IndexError, w)
             else
               (let r = last pool;
                    orch1 = orch\<lparr>agent_pools := dict_set (agent_pools orch) atype (butlast pool)\<rparr>;
                    as1 = as[r := shutdown (as ! r)]
                in case dict_del (agents orch1) (agent_id (as1 ! r)) of
                     Inl e \<Rightarrow> Inl (e, as1, orch1)
                   | Inr d \<Rightarrow> Inr (as1, orch1\<lparr>agents := d\<rparr>))))"

fun scale_down ::
  "string \<Rightarrow> nat \<Rightarrow> agent_store \<times> orchestrator
     \<Rightarrow> py_error \<times> agent_store \<times> orchestrator + agent_store \<times> orchestrator" where
  "scale_down atype 0 w = Inr w"
| "scale_down atype (Suc n) w =
     (case remove_last_agent atype w of
        Inl e \<Rightarrow> Inl e
      | Inr w' \<Rightarrow> scale_down atype n w')"

definition auto_scale_config :: agent_config where
  "auto_scale_config =
     \<lparr> cfg_max_autonomous_days = None, cfg_decision_threshold = None, cfg_learning_rate = None \<rparr>"

definition scale_fleet ::
  "datetime \<Rightarrow> string \<Rightarrow> int \<Rightarrow> agent_store \<times> orchestrator
     \<Rightarrow> py_error \<times> agent_store \<times> orchestrator + agent_store \<times> orchestrator" where
  "scale_fleet now atype target_count w =
     (let current_count =
            int (length (case map_of (agent_pools (snd w)) atype of None \<Rightarrow> [] | Some p \<Rightarrow> p))
      in if target_count > current_count
         then Inr (deploy_agent_fleet now atype (target_count - current_count) auto_scale_config w)
         else if target_count < current_count
         then scale_down atype (nat (current_count - target_count)) w
         else Inr w)"

section \<open>Notions of the specification, and example objects\<close>

text \<open>An initialised agent with the default configuration, used in the examples below.\<close>

definition demo_agent :: agent where
  "demo_agent = initialize 0 auto_scale_config (new_agent 0 ''nias_001'' ''NIAS'')"

text \<open>
  The progress of a goal in the words of the specification: a criterion counts as
  met if the corresponding metric is numeric and at least the target, or equal to
  the target for non-numeric values; the progress is the number of met criteria
  over the number of criteria, or 0 if there are none.
\<close>

definition spec_met :: "pydict \<Rightarrow> string \<times> pyval \<Rightarrow> bool" where
  "spec_met ms c =
     (case map_of ms (fst c) of
        None \<Rightarrow> False
      | Some m \<Rightarrow>
          (case (num_of m, num_of (snd c)) of
             (Some x, Some t) \<Rightarrow> t \<le> x
           | _ \<Rightarrow> py_eq m (snd c)))"

definition spec_progress :: "AgentGoal \<Rightarrow> pydict \<Rightarrow> rat" where
  "spec_progress g ms =
     (if success_criteria g = [] then 0
      else of_nat (length (filter (spec_met ms) (success_criteria g))) /
           of_nat (length (success_criteria g)))"

text \<open>
  A criterion is comparable with the metrics when its metric is absent, or its
  target is not a number, or the metric is a number too: then \<^verbatim>\<open>>=\<close> is defined.
\<close>

definition comparable :: "pydict \<Rightarrow> string \<times> pyval \<Rightarrow> bool" where
  "comparable ms c =
     (case map_of ms (fst c) of
        None \<Rightarrow> True
      | Some m \<Rightarrow> is_numeric (snd c) \<longrightarrow> is_numeric m)"

definition demo_goal :: "pydict \<Rightarrow> AgentGoal" where
  "demo_goal crit =
     \<lparr> goal_ident = ''goal-1'', description = ''Optimize company-wide emotional well-being'',
       success_criteria = crit, deadline = None, goal_priority = HIGH, progress = 0,
       goal_completed = False \<rparr>"









text \<open>A fleet of one agent of the type \<^verbatim>\<open>worker\<close>, deployed on a new orchestrator.\<close>

definition fleet_of_one :: "agent_store \<times> orchestrator" where
  "fleet_of_one = deploy_agent_fleet 0 ''worker'' 1 auto_scale_config ([], new_orchestrator)"

text \<open>
  The work that a queue still holds: a task counts for the executions that remain
  before its retries are exhausted, and for one execution at least. Every execution
  step on a non-empty queue lowers this number.
\<close>

definition attempts_left :: "task_store \<Rightarrow> task_ref \<Rightarrow> nat" where
  "attempts_left ts x = nat (max 1 (max_retries (ts ! x) - retry_count (ts ! x)))"

definition pending_work :: "task_store \<Rightarrow> task_ref list \<Rightarrow> nat" where
  "pending_work ts q = sum_list (map (attempts_left ts) q)"

text \<open>The task object after one failed execution.\<close>

definition failed_once :: "string \<Rightarrow> AgentTask \<Rightarrow> AgentTask" where
  "failed_once msg t = t\<lparr>error := Some msg, retry_count := retry_count t + 1\<rparr>"

text \<open>
  After \<open>n\<close> execution steps from \<open>w\<close> the task \<open>r\<close> has left the queue and is once
  in the completed tasks, with its error set and its retry count at the budget \<open>m\<close>;
  it was executed \<open>d\<close> times on the way, during which it was pending and its retry
  count never exceeded \<open>m\<close>.
\<close>

definition exhausted_after ::
  "handler \<Rightarrow> task_ref \<Rightarrow> int \<Rightarrow> nat \<Rightarrow> task_store \<times> agent \<Rightarrow> nat \<Rightarrow> bool" where
  "exhausted_after exec r m n w d =
     (r \<notin> set (task_queue (snd (run_steps exec n w))) \<and>
      count_list (completed_tasks (snd (run_steps exec n w))) r = 1 \<and>
      retry_count (fst (run_steps exec n w) ! r) = m \<and>
      max_retries (fst (run_steps exec n w) ! r) = m \<and>
      error (fst (run_steps exec n w) ! r) \<noteq> None \<and>
      count_list (executed exec n w) r = d \<and>
      (\<forall>k\<le>n. retry_count (fst (run_steps exec k w) ! r) \<le> m) \<and>
      (\<forall>k<n. r \<in> set (task_queue (snd (run_steps exec k w))) \<and>
             count_list (completed_tasks (snd (run_steps exec k w))) r = 0))"

text \<open>
  A handler that fails on every task, a new task with the default budget of three
  retries, and a task whose budget is zero.
\<close>

definition always_timeout :: handler where
  "always_timeout t = Inl ''Timeout: no answer''"

definition retry_store :: task_store where
  "retry_store = [new_task ''task-r'' ''goal-1'' ''sync_records'' [] NORMAL]"

definition zero_store :: task_store where
  "zero_store = [(new_task ''task-z'' ''goal-1'' ''sync_records'' [] NORMAL)\<lparr>max_retries := 0\<rparr>]"

definition retry_agent :: agent where
  "retry_agent = demo_agent\<lparr>task_queue := [0]\<rparr>"

section \<open>Properties of the dictionaries\<close>

lemma map_of_dict_set: "map_of (dict_set d k v) = (map_of d)(k \<mapsto> v)"
  by (induction d) (auto simp: fun_eq_iff)

lemma demo_agent_fields:
  "state demo_agent = IDLE" "task_queue demo_agent = []" "goals demo_agent = []"
  "completed_tasks demo_agent = []" "learning_memory demo_agent = []"
  "decision_threshold demo_agent = Some (4 / 5)"
  by (simp_all add: demo_agent_def initialize_def new_agent_def auto_scale_config_def)

section \<open>Properties of the state re-evaluation\<close>

text \<open>
  Claim C2. One pass of \<open>update_state\<close> leaves an agent in the \<open>ERROR\<close> state
  unchanged. For any other agent it sets the state to \<open>PLANNING\<close> when the queue is
  non-empty and the state is \<open>IDLE\<close>, or the queue is empty and the agent's list of
  goals is not; otherwise it sets the state to \<open>LEARNING\<close> when the number of
  completed tasks is a positive multiple of 10; otherwise nothing changes. No field
  other than the state is touched.
\<close>

theorem update_state_rules:
  "(state a = ERROR \<longrightarrow> update_state a = a) \<and>
   (state a \<noteq> ERROR \<longrightarrow>
      (if (task_queue a \<noteq> [] \<and> state a = IDLE) \<or> (task_queue a = [] \<and> goals a \<noteq> [])
       then update_state a = a\<lparr>state := PLANNING\<rparr>
       else if 0 < length (completed_tasks a) \<and> 10 dvd length (completed_tasks a)
       then update_state a = a\<lparr>state := LEARNING\<rparr>
       else update_state a = a))"
  by (auto simp: update_state_def should_learn_def dvd_eq_mod_eq_0)

theorem update_state_rules_witness:
  "state (update_state (demo_agent\<lparr>task_queue := [0]\<rparr>)) = PLANNING \<and>
   state (update_state (demo_agent\<lparr>state := EXECUTING, task_queue := [0],
            completed_tasks := replicate 10 0\<rparr>)) = LEARNING \<and>
   update_state (demo_agent\<lparr>state := ERROR, task_queue := [0]\<rparr>) =
     demo_agent\<lparr>state := ERROR, task_queue := [0]\<rparr>"
  using update_state_rules [of "demo_agent\<lparr>task_queue := [0]\<rparr>"]
    update_state_rules [of "demo_agent\<lparr>state := EXECUTING, task_queue := [0],
            completed_tasks := replicate 10 0\<rparr>"]
    update_state_rules [of "demo_agent\<lparr>state := ERROR, task_queue := [0]\<rparr>"]
  by (simp add: demo_agent_fields)

section \<open>Error recovery\<close>

text \<open>
  Claim C4. For every agent and every error, \<open>recover_from_error\<close> adds exactly one
  to the counter of recovered errors, leaves the task queue empty, sets the state to
  \<open>IDLE\<close>, and stores the error text and the time stamp in the learning memory
  under \<^verbatim>\<open>last_error\<close> and \<^verbatim>\<open>error_timestamp\<close>. The function is total: it has
  no exceptional result.
\<close>

theorem recover_from_error_effect:
  "errors_recovered (metrics (recover_from_error err stamp a)) = errors_recovered (metrics a) + 1 \<and>
   task_queue (recover_from_error err stamp a) = [] \<and>
   state (recover_from_error err stamp a) = IDLE \<and>
   map_of (learning_memory (recover_from_error err stamp a)) ''last_error'' = Some (PStr err) \<and>
   map_of (learning_memory (recover_from_error err stamp a)) ''error_timestamp'' = Some (PStr stamp)"
  by (simp add: recover_from_error_def map_of_dict_set)

section \<open>Knowledge sharing\<close>

lemma receive_fold:
  "map_of (fold (\<lambda>(key, v) m. if map_of m key = None then dict_set m key v else m) kn mem) k =
     (case map_of mem k of Some v \<Rightarrow> Some v | None \<Rightarrow> map_of kn k)"
proof (induction kn arbitrary: mem)
  case Nil
  then show ?case by (simp split: option.splits)
next
  case (Cons p kn)
  obtain key v where p: "p = (key, v)" by (cases p)
  show ?case
    by (simp add: p Cons.IH map_of_dict_set split: option.splits)
qed

text \<open>
  Claim C8. \<open>receive_knowledge\<close> keeps the value of every key that the receiver's
  learning memory already has, and gives every other key the value that the incoming
  knowledge has for it (none when the incoming knowledge lacks the key too). With
  the memory \<^verbatim>\<open>{a: 1}\<close> and the incoming \<^verbatim>\<open>{a: 2, b: 3}\<close> the result is
  \<^verbatim>\<open>{a: 1, b: 3}\<close>: this is the example that follows the theorem.
\<close>

theorem receive_knowledge_merge:
  "(\<forall>k v. map_of (learning_memory a) k = Some v \<longrightarrow>
            map_of (learning_memory (receive_knowledge kn a)) k = Some v) \<and>
   (\<forall>k. map_of (learning_memory a) k = None \<longrightarrow>
          map_of (learning_memory (receive_knowledge kn a)) k = map_of kn k)"
  by (simp add: receive_knowledge_def receive_fold)

theorem receive_knowledge_merge_witness:
  "learning_memory (receive_knowledge [(''a'', PInt 2), (''b'', PInt 3)]
      (demo_agent\<lparr>learning_memory := [(''a'', PInt 1)]\<rparr>)) = [(''a'', PInt 1), (''b'', PInt 3)] \<and>
   map_of (learning_memory (receive_knowledge [(''a'', PInt 2), (''b'', PInt 3)]
      (demo_agent\<lparr>learning_memory := [(''a'', PInt 1)]\<rparr>))) ''a'' = Some (PInt 1) \<and>
   map_of (learning_memory (receive_knowledge [(''a'', PInt 2), (''b'', PInt 3)]
      (demo_agent\<lparr>learning_memory := [(''a'', PInt 1)]\<rparr>))) ''b'' = Some (PInt 3)"
  using receive_knowledge_merge [of "demo_agent\<lparr>learning_memory := [(''a'', PInt 1)]\<rparr>"
      "[(''a'', PInt 2), (''b'', PInt 3)]"]
  by (simp add: receive_knowledge_def)

section \<open>Active agents\<close>

lemma status_state:
  "map_of (get_status isoformat a) ''state'' = Some (PStr (state_value (state a)))"
  by (simp add: get_status_def)

lemma state_value_not_active:
  "list_ex (py_eq (PStr (state_value s))) [PStr ''running'', PStr ''active'', PStr ''processing'']
     = False"
  by (cases s) simp_all

text \<open>
  Claim C10. For every orchestrator and every store of agents, in whatever states,
  \<open>get_active_agents\<close> returns the empty list: the status of an agent reports one of
  the eight values of \<open>AgentState\<close>, and none of them is \<^verbatim>\<open>running\<close>,
  \<^verbatim>\<open>active\<close> or \<^verbatim>\<open>processing\<close>.
\<close>

theorem get_active_agents_empty: "get_active_agents isoformat w = []"
  by (cases w) (simp only: get_active_agents_def status_state state_value_not_active
      prod.case option.case, simp)

section \<open>Properties of the goal progress\<close>

lemma criterion_met_spec:
  "comparable ms c \<Longrightarrow> criterion_met ms c = Inr (spec_met ms c)"
  by (auto simp: comparable_def criterion_met_def spec_met_def py_ge_num_def is_numeric_def
      split: option.splits)

lemma count_met_spec:
  "list_all (comparable ms) cs \<Longrightarrow>
     count_met ms cs met = Inr (met + length (filter (spec_met ms) cs))"
  by (induction cs arbitrary: met) (auto simp: criterion_met_spec)

lemma spec_progress_range: "0 \<le> spec_progress g ms \<and> spec_progress g ms \<le> 1"
proof -
  have "length (filter (spec_met ms) (success_criteria g)) \<le> length (success_criteria g)"
    by simp
  then have "(of_nat (length (filter (spec_met ms) (success_criteria g))) :: rat)
      \<le> of_nat (length (success_criteria g))"
    by (simp only: of_nat_le_iff)
  then show ?thesis
    by (simp add: spec_progress_def divide_le_eq_1)
qed

text \<open>
  Claim C5, as amended. For every goal and every metrics mapping in which each
  metric that is compared with a numeric target is itself a number,
  \<open>evaluate_progress\<close> returns the number of met criteria over the number of
  criteria, where a criterion is met if its metric is numeric and at least the
  target, or equal to the target for non-numeric values; the result is in [0,1], and
  it is 0 when the goal has no criteria.
\<close>

theorem evaluate_progress_ratio:
  assumes "list_all (comparable ms) (success_criteria g)"
  shows "evaluate_progress g ms = Inr (spec_progress g ms) \<and>
         0 \<le> spec_progress g ms \<and> spec_progress g ms \<le> 1 \<and>
         (success_criteria g = [] \<longrightarrow> evaluate_progress g ms = Inr 0)"
  using assms spec_progress_range [of g ms]
  by (simp add: evaluate_progress_def spec_progress_def count_met_spec)

theorem evaluate_progress_ratio_witness:
  "evaluate_progress (demo_goal [(''employee_satisfaction'', PFloat (9 / 10)),
        (''stress_levels'', PFloat (3 / 10)), (''mood'', PStr ''calm'')])
      [(''employee_satisfaction'', PFloat (19 / 20)), (''stress_levels'', PInt 0),
       (''mood'', PStr ''calm'')] = Inr (2 / 3)"
  using evaluate_progress_ratio [of "[(''employee_satisfaction'', PFloat (19 / 20)),
       (''stress_levels'', PInt 0), (''mood'', PStr ''calm'')]"
     "demo_goal [(''employee_satisfaction'', PFloat (9 / 10)),
        (''stress_levels'', PFloat (3 / 10)), (''mood'', PStr ''calm'')]"]
  by (simp add: demo_goal_def comparable_def is_numeric_def spec_progress_def spec_met_def)

text \<open>
  The claim as it was stated fails when a numeric target meets a metric that is not
  a number: the specification counts the criterion as not met and has progress 0, and
  \<open>evaluate_progress\<close> raises \<^verbatim>\<open>TypeError\<close> at the comparison.
\<close>

theorem evaluate_progress_type_error:
  "evaluate_progress (demo_goal [(''stress_levels'', PInt 1)]) [(''stress_levels'', PStr ''low'')]
     = Inl TypeError \<and>
   spec_progress (demo_goal [(''stress_levels'', PInt 1)]) [(''stress_levels'', PStr ''low'')] = 0"
  by (simp add: evaluate_progress_def demo_goal_def criterion_met_def py_ge_num_def
      spec_progress_def spec_met_def)

section \<open>The learning update\<close>






section \<open>The order of the task queue\<close>
















section \<open>Goal decomposition\<close>

lemma demo_desc: "contains ''optimize'' (lower (description (demo_goal []))) = True"
  by code_simp

lemma demo_desc2: "contains ''optimize'' (lower ''Improve morale'') = False"
  by code_simp

text \<open>
  Claim C7. For every goal whose description contains the keyword \<^verbatim>\<open>optimize\<close>, in
  any mixture of upper and lower case, \<open>decompose_goal\<close> creates exactly three tasks,
  with the actions \<^verbatim>\<open>analyze_current_state\<close>, \<^verbatim>\<open>identify_bottlenecks\<close> and
  \<^verbatim>\<open>implement_optimizations\<close> and the priorities \<open>HIGH\<close>, \<open>HIGH\<close> and
  \<open>NORMAL\<close>; and \<open>set_goal\<close> on an agent with an empty queue leaves exactly these
  three tasks in the queue, in the order of their creation (the two tasks of equal
  priority keep their insertion order). For every other description
  \<open>decompose_goal\<close> creates no task, and \<open>set_goal\<close> only records the goal.
\<close>

theorem decompose_goal_optimize:
  "(contains ''optimize'' (lower (description g)) \<longrightarrow>
      (\<exists>t1 t2 t3.
         decompose_goal (u1, u2, u3) ts g =
           (ts @ [t1, t2, t3], [length ts, length ts + 1, length ts + 2]) \<and>
         map action [t1, t2, t3] =
           [''analyze_current_state'', ''identify_bottlenecks'', ''implement_optimizations''] \<and>
         map priority [t1, t2, t3] = [HIGH, HIGH, NORMAL] \<and>
         (task_queue a = [] \<longrightarrow>
            set_goal (u1, u2, u3) (ts, a) g =
              (ts @ [t1, t2, t3],
               a\<lparr>goals := goals a @ [g],
                 task_queue := [length ts, length ts + 1, length ts + 2]\<rparr>)))) \<and>
   (\<not> contains ''optimize'' (lower (description g)) \<longrightarrow>
      decompose_goal (u1, u2, u3) ts g = (ts, []) \<and>
      set_goal (u1, u2, u3) (ts, a) g = (ts, a\<lparr>goals := goals a @ [g]\<rparr>))"
  by (simp add: decompose_goal_def set_goal_def add_tasks_def add_task_def task_key_def
      new_task_def nth_append less_eq_prod_def)


theorem decompose_goal_optimize_witness:
  "map (\<lambda>q. action (fst (set_goal (''uuid-1'', ''uuid-2'', ''uuid-3'') ([], demo_agent) (demo_goal [])) ! q))
     (task_queue (snd (set_goal (''uuid-1'', ''uuid-2'', ''uuid-3'') ([], demo_agent) (demo_goal [])))) =
     [''analyze_current_state'', ''identify_bottlenecks'', ''implement_optimizations''] \<and>
   map (\<lambda>q. priority (fst (set_goal (''uuid-1'', ''uuid-2'', ''uuid-3'') ([], demo_agent) (demo_goal [])) ! q))
     (task_queue (snd (set_goal (''uuid-1'', ''uuid-2'', ''uuid-3'') ([], demo_agent) (demo_goal [])))) =
     [HIGH, HIGH, NORMAL] \<and>
   decompose_goal (''uuid-1'', ''uuid-2'', ''uuid-3'') [] ((demo_goal [])\<lparr>description := ''Improve morale''\<rparr>)
     = ([], [])"
proof -
  from decompose_goal_optimize [of "demo_goal []" "''uuid-1''" "''uuid-2''" "''uuid-3''" "[]" demo_agent]
  obtain t1 t2 t3 where
    "map action [t1, t2, t3] =
       [''analyze_current_state'', ''identify_bottlenecks'', ''implement_optimizations'']"
    "map priority [t1, t2, t3] = [HIGH, HIGH, NORMAL]"
    "set_goal (''uuid-1'', ''uuid-2'', ''uuid-3'') ([], demo_agent) (demo_goal []) =
       ([t1, t2, t3], demo_agent\<lparr>goals := goals demo_agent @ [demo_goal []],
          task_queue := [0, 1, 2]\<rparr>)"
    by (auto simp: demo_desc demo_agent_fields)
  moreover
  from decompose_goal_optimize [of "(demo_goal [])\<lparr>description := ''Improve morale''\<rparr>"
      "''uuid-1''" "''uuid-2''" "''uuid-3''" "[]" demo_agent]
  have "decompose_goal (''uuid-1'', ''uuid-2'', ''uuid-3'') []
      ((demo_goal [])\<lparr>description := ''Improve morale''\<rparr>) = ([], [])"
    by (simp add: demo_desc2)
  ultimately show ?thesis
    by simp
qed

section \<open>Scaling a fleet\<close>

text \<open>
  Claim C9 fails on the code. \<open>deploy_agent_fleet\<close> numbers the agents it creates
  from 0 at every call, so scaling a fleet of one agent up to three creates a second
  agent \<^verbatim>\<open>worker_000\<close>, which takes the registry entry of the first: the pool has
  three agents and the registry two. Scaling this pool of three down to one then
  removes the registry entries of the two agents that are shut down, and leaves the
  agent that remains in the pool unregistered: no agent of the type is registered,
  where the claim has exactly one. Scaling it down to zero raises \<^verbatim>\<open>KeyError\<close>
  at the third removal, whose identifier was already deleted.
\<close>

theorem scale_fleet_loses_registration:
  "map_of (agent_pools (snd fleet_of_one)) ''worker'' = Some [0] \<and>
   agents (snd fleet_of_one) = [(''worker_000'', 0)] \<and>
   (case scale_fleet 0 ''worker'' 3 fleet_of_one of
      Inl e \<Rightarrow> False
    | Inr w3 \<Rightarrow>
        map agent_id (fst w3) = [''worker_000'', ''worker_000'', ''worker_001''] \<and>
        map_of (agent_pools (snd w3)) ''worker'' = Some [0, 1, 2] \<and>
        agents (snd w3) = [(''worker_000'', 1), (''worker_001'', 2)] \<and>
        (case scale_fleet 0 ''worker'' 1 w3 of
           Inl e \<Rightarrow> False
         | Inr w1 \<Rightarrow>
             map_of (agent_pools (snd w1)) ''worker'' = Some [0] \<and>
             agents (snd w1) = []) \<and>
        (case scale_fleet 0 ''worker'' 0 w3 of
           Inl e \<Rightarrow> fst e = KeyError
         | Inr w0 \<Rightarrow> False))"
  by code_simp

section \<open>Retries of a failing task\<close>

lemma step_empty:
  "task_queue a = [] \<Longrightarrow> execute_tasks exec (ts, a) = (ts, a\<lparr>state := IDLE\<rparr>)"
  by (simp add: execute_tasks_def)

lemma step_success:
  assumes "task_queue a = x # q" "exec (ts ! x) = Inr res"
  shows "execute_tasks exec (ts, a) =
    (ts[x := (ts ! x)\<lparr>result := Some res, completed := True\<rparr>],
     a\<lparr>task_queue := q, completed_tasks := completed_tasks a @ [x],
       metrics := (metrics a)\<lparr>tasks_completed := tasks_completed (metrics a) + 1\<rparr>\<rparr>)"
  using assms by (simp add: execute_tasks_def Let_def)

lemma step_retry:
  assumes "task_queue a = x # q" "exec (ts ! x) = Inl msg"
    "retry_count (ts ! x) + 1 < max_retries (ts ! x)"
  shows "execute_tasks exec (ts, a) =
    (ts[x := failed_once msg (ts ! x)],
     a\<lparr>task_queue := sort_key (\<lambda>y. task_key (ts[x := failed_once msg (ts ! x)] ! y)) (q @ [x])\<rparr>)"
  using assms by (simp add: execute_tasks_def Let_def failed_once_def add_task_def)

lemma step_exhaust:
  assumes "task_queue a = x # q" "exec (ts ! x) = Inl msg"
    "\<not> retry_count (ts ! x) + 1 < max_retries (ts ! x)"
  shows "execute_tasks exec (ts, a) =
    (ts[x := failed_once msg (ts ! x)],
     a\<lparr>task_queue := q, completed_tasks := completed_tasks a @ [x]\<rparr>)"
  using assms by (simp add: execute_tasks_def Let_def failed_once_def)

lemma sum_list_sort_key: "sum_list (map f (sort_key k xs)) = sum_list (map (f :: 'a \<Rightarrow> nat) xs)"
proof -
  have "mset (map f (sort_key k xs)) = mset (map f xs)"
    by simp
  then show ?thesis
    by (metis sum_mset_sum_list)
qed

lemma pending_work_sort:
  "pending_work ts (sort_key k q) = pending_work ts q"
  by (simp add: pending_work_def sum_list_sort_key)

lemma pending_work_mono:
  assumes "\<And>y. y \<in> set q \<Longrightarrow> attempts_left ts' y \<le> attempts_left ts y"
  shows "pending_work ts' q \<le> pending_work ts q"
  unfolding pending_work_def using assms by (intro sum_list_mono) simp

lemma attempts_left_pos: "0 < attempts_left ts x"
  by (simp add: attempts_left_def)

lemma attempts_left_success:
  "attempts_left (ts[x := (ts ! x)\<lparr>result := v, completed := b\<rparr>]) = attempts_left ts"
proof
  fix y
  show "attempts_left (ts[x := (ts ! x)\<lparr>result := v, completed := b\<rparr>]) y = attempts_left ts y"
    by (cases "y = x"; cases "x < length ts")
      (simp_all add: attempts_left_def list_update_beyond)
qed

lemma attempts_left_failed_le:
  "attempts_left (ts[x := failed_once msg (ts ! x)]) y \<le> attempts_left ts y"
  by (cases "y = x"; cases "x < length ts")
    (simp_all add: attempts_left_def failed_once_def list_update_beyond)

lemma attempts_left_failed_less:
  assumes "x < length ts" "retry_count (ts ! x) + 1 < max_retries (ts ! x)"
  shows "attempts_left (ts[x := failed_once msg (ts ! x)]) x < attempts_left ts x"
  using assms by (simp add: attempts_left_def failed_once_def)

lemma pending_work_decreases:
  assumes "task_queue a = x # q" "x < length ts"
  shows "pending_work (fst (execute_tasks exec (ts, a))) (task_queue (snd (execute_tasks exec (ts, a))))
    < pending_work ts (task_queue a)"
proof (cases "exec (ts ! x)")
  case (Inr res)
  have "pending_work (ts[x := (ts ! x)\<lparr>result := Some res, completed := True\<rparr>]) q = pending_work ts q"
    by (simp add: pending_work_def attempts_left_success)
  then show ?thesis
    using assms attempts_left_pos [of ts x]
    by (simp add: step_success [where exec = exec and ts = ts, OF assms(1) Inr] pending_work_def)
next
  case (Inl msg)
  let ?ts = "ts[x := failed_once msg (ts ! x)]"
  have le: "pending_work ?ts q \<le> pending_work ts q"
    by (rule pending_work_mono) (rule attempts_left_failed_le)
  show ?thesis
  proof (cases "retry_count (ts ! x) + 1 < max_retries (ts ! x)")
    case True
    have "pending_work ?ts (q @ [x]) < pending_work ts (x # q)"
      using le attempts_left_failed_less [OF assms(2) True, of msg]
      by (simp add: pending_work_def)
    then show ?thesis
      using assms by (simp add: step_retry [where exec = exec and ts = ts, OF assms(1) Inl True] pending_work_sort)
  next
    case False
    show ?thesis
      using assms le attempts_left_pos [of ts x]
      by (simp add: step_exhaust [where exec = exec and ts = ts, OF assms(1) Inl False] pending_work_def)
  qed
qed


lemma count_list_sort_key: "count_list (sort_key k xs) r = count_list xs r"
  by (metis count_mset mset_sort)

lemma step_other:
  assumes "task_queue a = x # q" "x \<noteq> r"
  shows "fst (execute_tasks exec (ts, a)) ! r = ts ! r"
    and "count_list (task_queue (snd (execute_tasks exec (ts, a)))) r = count_list (task_queue a) r"
    and "count_list (completed_tasks (snd (execute_tasks exec (ts, a)))) r =
           count_list (completed_tasks a) r"
proof -
  consider (ok) res where "exec (ts ! x) = Inr res"
    | (retry) msg where "exec (ts ! x) = Inl msg" "retry_count (ts ! x) + 1 < max_retries (ts ! x)"
    | (exhaust) msg where "exec (ts ! x) = Inl msg" "\<not> retry_count (ts ! x) + 1 < max_retries (ts ! x)"
    by (cases "exec (ts ! x)") auto
  then have "fst (execute_tasks exec (ts, a)) ! r = ts ! r \<and>
    count_list (task_queue (snd (execute_tasks exec (ts, a)))) r = count_list (task_queue a) r \<and>
    count_list (completed_tasks (snd (execute_tasks exec (ts, a)))) r =
           count_list (completed_tasks a) r"
  proof cases
    case ok
    show ?thesis
      using assms by (simp add: step_success [where exec = exec and ts = ts, OF assms(1) ok])
  next
    case retry
    show ?thesis
      using assms
      by (simp add: step_retry [where exec = exec and ts = ts, OF assms(1) retry]
          count_list_sort_key)
  next
    case exhaust
    show ?thesis
      using assms
      by (simp add: step_exhaust [where exec = exec and ts = ts, OF assms(1) exhaust])
  qed
  then show "fst (execute_tasks exec (ts, a)) ! r = ts ! r"
    and "count_list (task_queue (snd (execute_tasks exec (ts, a)))) r = count_list (task_queue a) r"
    and "count_list (completed_tasks (snd (execute_tasks exec (ts, a)))) r =
           count_list (completed_tasks a) r"
    by simp_all
qed

lemma step_keeps_refs:
  "length (fst (execute_tasks exec (ts, a))) = length ts \<and>
   set (task_queue (snd (execute_tasks exec (ts, a)))) \<subseteq> set (task_queue a)"
proof (cases "task_queue a")
  case Nil
  then show ?thesis by (simp add: step_empty)
next
  case (Cons x q)
  consider (ok) res where "exec (ts ! x) = Inr res"
    | (retry) msg where "exec (ts ! x) = Inl msg" "retry_count (ts ! x) + 1 < max_retries (ts ! x)"
    | (exhaust) msg where "exec (ts ! x) = Inl msg" "\<not> retry_count (ts ! x) + 1 < max_retries (ts ! x)"
    by (cases "exec (ts ! x)") auto
  then show ?thesis
  proof cases
    case ok
    show ?thesis
      using Cons by (auto simp: step_success [where exec = exec and ts = ts, OF Cons ok])
  next
    case retry
    show ?thesis
      using Cons by (auto simp: step_retry [where exec = exec and ts = ts, OF Cons retry])
  next
    case exhaust
    show ?thesis
      using Cons by (auto simp: step_exhaust [where exec = exec and ts = ts, OF Cons exhaust])
  qed
qed

lemma exhausted_after_step:
  assumes "exhausted_after exec r m n (execute_tasks exec w) d"
    and "retry_count (fst w ! r) \<le> m"
    and "r \<in> set (task_queue (snd w))"
    and "count_list (completed_tasks (snd w)) r = 0"
  shows "exhausted_after exec r m (Suc n) w
           (count_list (case task_queue (snd w) of [] \<Rightarrow> [] | x # q \<Rightarrow> [x]) r + d)"
proof -
  have "retry_count (fst (run_steps exec k w) ! r) \<le> m" if "k \<le> Suc n" for k
  proof (cases k)
    case 0
    with assms(2) show ?thesis by simp
  next
    case (Suc j)
    with that assms(1) show ?thesis
      by (simp add: exhausted_after_def)
  qed
  moreover have "r \<in> set (task_queue (snd (run_steps exec k w))) \<and>
      count_list (completed_tasks (snd (run_steps exec k w))) r = 0" if "k < Suc n" for k
  proof (cases k)
    case 0
    with assms(3,4) show ?thesis by simp
  next
    case (Suc j)
    with that assms(1) show ?thesis
      by (simp add: exhausted_after_def)
  qed
  ultimately show ?thesis
    using assms(1) by (simp add: exhausted_after_def)
qed

lemma progress:
  assumes fails: "\<And>t. task_ident t = tid \<Longrightarrow> isl (exec t)"
  shows "\<lbrakk>task_ident (ts ! r) = tid; max_retries (ts ! r) = m; retry_count (ts ! r) < m;
          count_list (task_queue a) r = 1; count_list (completed_tasks a) r = 0;
          \<forall>x\<in>set (task_queue a). x < length ts\<rbrakk>
         \<Longrightarrow> \<exists>n. exhausted_after exec r m n (ts, a) (nat (m - retry_count (ts ! r)))"
proof (induction "pending_work ts (task_queue a)" arbitrary: ts a rule: less_induct)
  case less
  note ident = less.prems(1) and maxr = less.prems(2) and budget = less.prems(3)
    and once = less.prems(4) and fresh = less.prems(5) and valid = less.prems(6)
  from once obtain x q where queue: "task_queue a = x # q"
    by (cases "task_queue a") auto
  from valid queue have x_valid: "x < length ts"
    by simp
  obtain ts1 a1 where step: "execute_tasks exec (ts, a) = (ts1, a1)"
    by (cases "execute_tasks exec (ts, a)")
  have smaller: "pending_work ts1 (task_queue a1) < pending_work ts (task_queue a)"
    using pending_work_decreases [OF queue x_valid, of exec] by (simp add: step)
  have valid1: "\<forall>y\<in>set (task_queue a1). y < length ts1"
    using step_keeps_refs [of exec ts a] valid by (auto simp: step)
  have queued: "r \<in> set (task_queue a)"
    using once count_list_0_iff [of "task_queue a" r] by auto
  have le0: "retry_count (fst (ts, a) ! r) \<le> m"
    "r \<in> set (task_queue (snd (ts, a)))"
    "count_list (completed_tasks (snd (ts, a))) r = 0"
    using budget queued fresh by simp_all
  show ?case
  proof (cases "x = r")
    case False
    have same: "ts1 ! r = ts ! r" "count_list (task_queue a1) r = 1"
      "count_list (completed_tasks a1) r = 0"
      using step_other [OF queue False, of exec ts] once fresh by (simp_all add: step)
    from less.hyps [OF smaller] same ident maxr budget valid1
    obtain n where "exhausted_after exec r m n (ts1, a1) (nat (m - retry_count (ts ! r)))"
      by auto
    then have "exhausted_after exec r m n (execute_tasks exec (ts, a)) (nat (m - retry_count (ts ! r)))"
      by (simp add: step)
    from exhausted_after_step [OF this le0] False queue
    show ?thesis by auto
  next
    case True
    from once queue True have q_free: "r \<notin> set q"
      by (simp add: count_list_0_iff)
    from fails [of "ts ! r"] ident obtain msg where failed: "exec (ts ! x) = Inl msg"
      by (cases "exec (ts ! r)") (auto simp: True)
    show ?thesis
    proof (cases "retry_count (ts ! x) + 1 < max_retries (ts ! x)")
      case retry: True
      note st = step_retry [where exec = exec and ts = ts, OF queue failed retry]
      from st step have ts1: "ts1 = ts[r := failed_once msg (ts ! r)]"
        and q1: "task_queue a1 = sort_key (\<lambda>y. task_key (ts1 ! y)) (q @ [r])"
        and c1: "completed_tasks a1 = completed_tasks a"
        by (auto simp: True)
      have r1: "task_ident (ts1 ! r) = tid" "max_retries (ts1 ! r) = m"
        "retry_count (ts1 ! r) = retry_count (ts ! r) + 1"
        using x_valid ident maxr by (simp_all add: ts1 True failed_once_def)
      have "retry_count (ts1 ! r) < m"
        using retry maxr by (simp add: r1 True)
      moreover have "count_list (task_queue a1) r = 1"
        using q_free by (simp add: q1 count_list_sort_key count_list_0_iff)
      moreover have "count_list (completed_tasks a1) r = 0"
        using fresh by (simp add: c1)
      ultimately obtain n where
        "exhausted_after exec r m n (ts1, a1) (nat (m - retry_count (ts1 ! r)))"
        using less.hyps [OF smaller r1(1) r1(2)] valid1 by blast
      then have "exhausted_after exec r m n (execute_tasks exec (ts, a))
          (nat (m - retry_count (ts1 ! r)))"
        by (simp add: step)
      from exhausted_after_step [OF this le0]
      have "exhausted_after exec r m (Suc n) (ts, a) (1 + nat (m - retry_count (ts1 ! r)))"
        by (simp add: queue True)
      moreover have "1 + nat (m - retry_count (ts1 ! r)) = nat (m - retry_count (ts ! r))"
        using budget by (simp add: r1)
      ultimately show ?thesis by auto
    next
      case exhaust: False
      note st = step_exhaust [where exec = exec and ts = ts, OF queue failed exhaust]
      from st step have ts1: "ts1 = ts[r := failed_once msg (ts ! r)]"
        and q1: "task_queue a1 = q"
        and c1: "completed_tasks a1 = completed_tasks a @ [r]"
        by (auto simp: True)
      have last: "retry_count (ts ! r) + 1 = m"
        using exhaust budget maxr by (simp add: True)
      have "exhausted_after exec r m 0 (ts1, a1) 0"
        using q_free fresh x_valid maxr last
        by (simp add: exhausted_after_def q1 c1 ts1 True failed_once_def)
      then have "exhausted_after exec r m 0 (execute_tasks exec (ts, a)) 0"
        by (simp add: step)
      from exhausted_after_step [OF this le0]
      have "exhausted_after exec r m (Suc 0) (ts, a) 1"
        by (simp add: queue True)
      moreover have "nat (m - retry_count (ts ! r)) = 1"
        using last by simp
      ultimately show ?thesis by auto
    qed
  qed
qed

lemma step_absent:
  assumes "r \<notin> set (task_queue a)"
  shows "fst (execute_tasks exec (ts, a)) ! r = ts ! r"
    and "r \<notin> set (task_queue (snd (execute_tasks exec (ts, a))))"
    and "count_list (completed_tasks (snd (execute_tasks exec (ts, a)))) r =
           count_list (completed_tasks a) r"
proof -
  have "fst (execute_tasks exec (ts, a)) ! r = ts ! r \<and>
    r \<notin> set (task_queue (snd (execute_tasks exec (ts, a)))) \<and>
    count_list (completed_tasks (snd (execute_tasks exec (ts, a)))) r =
           count_list (completed_tasks a) r"
  proof (cases "task_queue a")
    case Nil
    then show ?thesis by (simp add: step_empty)
  next
    case (Cons x q)
    with assms have "x \<noteq> r" by auto
    from step_other [OF Cons this, of exec ts] step_keeps_refs [of exec ts a] assms
    show ?thesis by (auto simp: count_list_0_iff)
  qed
  then show "fst (execute_tasks exec (ts, a)) ! r = ts ! r"
    and "r \<notin> set (task_queue (snd (execute_tasks exec (ts, a))))"
    and "count_list (completed_tasks (snd (execute_tasks exec (ts, a)))) r =
           count_list (completed_tasks a) r"
    by simp_all
qed

lemma absent_stable:
  "r \<notin> set (task_queue (snd w)) \<Longrightarrow>
     fst (run_steps exec k w) ! r = fst w ! r \<and>
     r \<notin> set (task_queue (snd (run_steps exec k w))) \<and>
     count_list (completed_tasks (snd (run_steps exec k w))) r =
       count_list (completed_tasks (snd w)) r \<and>
     count_list (executed exec k w) r = 0"
proof (induction k arbitrary: w)
  case 0
  then show ?case by simp
next
  case (Suc k)
  obtain ts a where w: "w = (ts, a)" by (cases w)
  from Suc.prems have absent: "r \<notin> set (task_queue a)"
    by (simp add: w)
  note st = step_absent [OF absent, of exec ts]
  from Suc.IH [of "execute_tasks exec w"] st absent
  show ?case
    by (cases "task_queue a") (auto simp: w)
qed

lemma run_steps_add: "run_steps exec (n + k) w = run_steps exec k (run_steps exec n w)"
  by (induction n arbitrary: w) simp_all

lemma executed_add:
  "executed exec (n + k) w = executed exec n w @ executed exec k (run_steps exec n w)"
  by (induction n arbitrary: w) simp_all


lemma retry_run:
  "completed_tasks (snd (run_steps always_timeout 3 (retry_store, retry_agent))) = [0]"
  "executed always_timeout 3 (retry_store, retry_agent) = [0, 0, 0]"
  "retry_count (fst (run_steps always_timeout 3 (retry_store, retry_agent)) ! 0) = 3"
  by (simp_all add: numeral_3_eq_3 execute_tasks_def add_task_def retry_store_def
      retry_agent_def demo_agent_fields always_timeout_def new_task_def Let_def)

text \<open>
  Claim C1, as amended. Take a task that is queued once and not yet completed, with
  retries left (\<open>retry_count < max_retries\<close>: for a new task, a budget of at least
  one), in a queue of references into the store, and a handler that fails on every
  execution of this task, whatever it does on the other tasks of the queue. Then
  repeating the execution step brings the task, at some step \<open>n\<close>, to the
  failed-exhausted status: up to then it is pending, and from then on it is out of
  the queue, exactly once in the completed tasks, with its error set and its retry
  count equal to \<open>max_retries\<close>, and it has been executed exactly
  \<open>max_retries - retry_count\<close> times (\<open>max_retries\<close> times for a new task). At
  every step the retry count is at most \<open>max_retries\<close> and the task occurs at most
  once in the completed tasks.
\<close>

theorem failing_task_exhausted:
  assumes fails: "\<And>t. task_ident t = task_ident (ts ! r) \<Longrightarrow> isl (exec t)"
    and once: "count_list (task_queue a) r = 1"
    and fresh: "r \<notin> set (completed_tasks a)"
    and valid: "\<forall>x\<in>set (task_queue a). x < length ts"
    and budget: "retry_count (ts ! r) < max_retries (ts ! r)"
  shows "\<exists>n.
    (\<forall>k. retry_count (fst (run_steps exec k (ts, a)) ! r) \<le> max_retries (ts ! r) \<and>
          count_list (completed_tasks (snd (run_steps exec k (ts, a)))) r \<le> 1) \<and>
    (\<forall>k<n. r \<in> set (task_queue (snd (run_steps exec k (ts, a)))) \<and>
           r \<notin> set (completed_tasks (snd (run_steps exec k (ts, a))))) \<and>
    (\<forall>k\<ge>n. r \<notin> set (task_queue (snd (run_steps exec k (ts, a)))) \<and>
           count_list (completed_tasks (snd (run_steps exec k (ts, a)))) r = 1 \<and>
           retry_count (fst (run_steps exec k (ts, a)) ! r) = max_retries (ts ! r) \<and>
           error (fst (run_steps exec k (ts, a)) ! r) \<noteq> None \<and>
           int (count_list (executed exec k (ts, a)) r) =
             max_retries (ts ! r) - retry_count (ts ! r))"
proof -
  let ?m = "max_retries (ts ! r)"
  from fresh have "count_list (completed_tasks a) r = 0"
    by (simp add: count_list_0_iff)
  with progress [of "task_ident (ts ! r)" exec ts r ?m a] fails once valid budget
  obtain n where n: "exhausted_after exec r ?m n (ts, a) (nat (?m - retry_count (ts ! r)))"
    by blast
  let ?w = "run_steps exec n (ts, a)"
  from n have absent: "r \<notin> set (task_queue (snd ?w))"
    by (simp add: exhausted_after_def)
  have after: "r \<notin> set (task_queue (snd (run_steps exec k (ts, a)))) \<and>
      count_list (completed_tasks (snd (run_steps exec k (ts, a)))) r = 1 \<and>
      retry_count (fst (run_steps exec k (ts, a)) ! r) = ?m \<and>
      error (fst (run_steps exec k (ts, a)) ! r) \<noteq> None \<and>
      int (count_list (executed exec k (ts, a)) r) = ?m - retry_count (ts ! r)"
    if "n \<le> k" for k
  proof -
    from that obtain j where k: "k = n + j"
      by (auto simp: le_iff_add)
    from absent_stable [OF absent, of exec j] n budget
    show ?thesis
      by (simp add: k run_steps_add executed_add exhausted_after_def)
  qed
  have before: "r \<in> set (task_queue (snd (run_steps exec k (ts, a)))) \<and>
      r \<notin> set (completed_tasks (snd (run_steps exec k (ts, a))))" if "k < n" for k
    using n that by (simp add: exhausted_after_def count_list_0_iff)
  have always: "retry_count (fst (run_steps exec k (ts, a)) ! r) \<le> ?m \<and>
      count_list (completed_tasks (snd (run_steps exec k (ts, a)))) r \<le> 1" for k
  proof (cases "k < n")
    case True
    with n before [OF True] show ?thesis
      by (simp add: exhausted_after_def count_list_0_iff)
  next
    case False
    with after [of k] show ?thesis by simp
  qed
  from always before after show ?thesis
    by blast
qed


theorem failing_task_exhausted_witness:
  "(\<exists>n. \<forall>k\<ge>n.
      count_list (completed_tasks (snd (run_steps always_timeout k (retry_store, retry_agent)))) 0 = 1 \<and>
      retry_count (fst (run_steps always_timeout k (retry_store, retry_agent)) ! 0) = 3 \<and>
      int (count_list (executed always_timeout k (retry_store, retry_agent)) 0) = 3) \<and>
   completed_tasks (snd (run_steps always_timeout 3 (retry_store, retry_agent))) = [0] \<and>
   executed always_timeout 3 (retry_store, retry_agent) = [0, 0, 0] \<and>
   retry_count (fst (run_steps always_timeout 3 (retry_store, retry_agent)) ! 0) = 3"
proof -
  have fails: "isl (always_timeout t)" for t
    by (simp add: always_timeout_def)
  have once: "count_list (task_queue retry_agent) 0 = 1"
    and fresh: "0 \<notin> set (completed_tasks retry_agent)"
    and valid: "\<forall>x\<in>set (task_queue retry_agent). x < length retry_store"
    and budget: "retry_count (retry_store ! 0) < max_retries (retry_store ! 0)"
    and vals: "max_retries (retry_store ! 0) = 3" "retry_count (retry_store ! 0) = 0"
    by (simp_all add: retry_agent_def demo_agent_fields retry_store_def new_task_def)
  from failing_task_exhausted [of retry_store 0 always_timeout retry_agent,
      OF fails once fresh valid budget]
  have "\<exists>n. \<forall>k\<ge>n.
      count_list (completed_tasks (snd (run_steps always_timeout k (retry_store, retry_agent)))) 0 = 1 \<and>
      retry_count (fst (run_steps always_timeout k (retry_store, retry_agent)) ! 0) = 3 \<and>
      int (count_list (executed always_timeout k (retry_store, retry_agent)) 0) = 3"
    unfolding vals by auto
  with retry_run show ?thesis
    by simp
qed

text \<open>
  The claim as it was stated, for every task, fails for a task whose budget is zero:
  it is not exhausted after zero executions, it is executed once, and it ends in the
  completed tasks with a retry count of 1, above its \<open>max_retries\<close> of 0.
\<close>

theorem zero_retries_overrun:
  "completed_tasks (snd (run_steps always_timeout 0 (zero_store, retry_agent))) = [] \<and>
   completed_tasks (snd (run_steps always_timeout 1 (zero_store, retry_agent))) = [0] \<and>
   executed always_timeout 1 (zero_store, retry_agent) = [0] \<and>
   retry_count (fst (run_steps always_timeout 1 (zero_store, retry_agent)) ! 0) = 1 \<and>
   max_retries (fst (run_steps always_timeout 1 (zero_store, retry_agent)) ! 0) = 0"
  by (simp add: One_nat_def execute_tasks_def zero_store_def retry_agent_def
      demo_agent_fields always_timeout_def new_task_def Let_def)

end
